theory Spec2Isabelle
  imports Complex_Main
begin

section \<open>Data model\<close>

text \<open>
  The embedding follows \<^verbatim>\<open>fmriprep/interfaces/images.py\<close>. Floating-point
  numbers of numpy are modelled by \<^typ>\<open>real\<close>: the arithmetic is exact, and the
  values \<^verbatim>\<open>inf\<close> and \<^verbatim>\<open>nan\<close> that numpy produces on a division by zero
  have no counterpart, so results that involve a division are stated for non-zero
  divisors. One-dimensional numpy arrays are lists, matrices are lists of rows.
\<close>

type_synonym vec = "real list"
type_synonym mat = "real list list"

datatype py_error = ValueError | KeyError | RuntimeError

text \<open>A numpy array: its \<^verbatim>\<open>shape\<close> and its values in storage order.\<close>

record ndarray =
  shape :: "nat list"
  voxels :: "real list"

text \<open>
  The two header fields the code reads: \<^verbatim>\<open>header.get_zooms()\<close> and the spatial
  unit \<^verbatim>\<open>header.get_xyzt_units()[0]\<close>.
\<close>

record nifti_header =
  zooms :: "real list"
  xyz_unit :: string

text \<open>A nibabel image: the data array, the 4x4 affine and the header.\<close>

record image =
  dataobj :: ndarray
  affine :: mat
  header :: nifti_header

definition img_shape :: "image \<Rightarrow> nat list" where
  "img_shape img = shape (dataobj img)"

text \<open>
  nibabel only builds images whose affine is a 4x4 array; the slices
  \<^verbatim>\<open>affine[:3, :3]\<close> and \<^verbatim>\<open>affine[:3, 3]\<close> are read under that invariant.
\<close>

definition wf_affine :: "mat \<Rightarrow> bool" where
  "wf_affine A = (length A = 4 \<and> list_all (\<lambda>r. length r = 4) A)"

text \<open>
  A Python reference held by \<^verbatim>\<open>ConformSeries._run_interface\<close>: either the very
  object that \<^verbatim>\<open>nb.load\<close> returned for the input file, or an object created
  afterwards. This is all that the test \<^verbatim>\<open>final is orig\<close> observes.
\<close>

datatype imgref = Orig image | Fresh image

fun deref :: "imgref \<Rightarrow> image" where
  "deref (Orig img) = img"
| "deref (Fresh img) = img"

fun is_orig :: "imgref \<Rightarrow> bool" where
  "is_orig (Orig img) = True"
| "is_orig (Fresh img) = False"

text \<open>What is done for one output name: \<^verbatim>\<open>copyfile(in_name, out_name, copy=True,
  use_hardlink=True)\<close> or \<^verbatim>\<open>final.to_filename(out_name)\<close>.\<close>

datatype file_action = Copyfile string string | To_filename image string

text \<open>
  The external resampling collaborator \<^verbatim>\<open>nilearn.image.resample_img(img,
  target_affine, target_shape, interpolation)\<close> is a parameter of the model. Every
  call made to it is recorded with its arguments.
\<close>

datatype interpolation = Continuous | Nearest

type_synonym resampler = "image \<Rightarrow> mat \<Rightarrow> nat list option \<Rightarrow> interpolation \<Rightarrow> image"

type_synonym resample_call = "image \<times> mat \<times> nat list option \<times> interpolation"

section \<open>Errors as values\<close>

definition ebind :: "py_error + 'a \<Rightarrow> ('a \<Rightarrow> py_error + 'b) \<Rightarrow> py_error + 'b" where
  "ebind m f = (case m of Inl e \<Rightarrow> Inl e | Inr x \<Rightarrow> f x)"

text \<open>A Python loop that appends one result per element and stops at the first raise.\<close>

fun for_each :: "('a \<Rightarrow> py_error + 'b) \<Rightarrow> 'a list \<Rightarrow> py_error + 'b list" where
  "for_each f [] = Inr []"
| "for_each f (x # xs) =
     ebind (f x) (\<lambda>y. ebind (for_each f xs) (\<lambda>ys. Inr (y # ys)))"

section \<open>The numpy operations used\<close>

text \<open>
  Element-wise binary operations on one-dimensional arrays, with numpy's
  broadcasting: equal lengths, or one operand of length 1; anything else raises
  \<^verbatim>\<open>ValueError\<close>.
\<close>

definition broadcast2 :: "('a \<Rightarrow> 'b \<Rightarrow> 'c) \<Rightarrow> 'a list \<Rightarrow> 'b list \<Rightarrow> py_error + 'c list" where
  "broadcast2 f a b =
     (if length a = length b then Inr (map2 f a b)
      else if length b = 1 then Inr (map (\<lambda>x. f x (hd b)) a)
      else if length a = 1 then Inr (map (f (hd a)) b)
      else Inl ValueError)"

text \<open>
  \<^verbatim>\<open>np.max(rows, axis=0)\<close> and \<^verbatim>\<open>np.min(rows, axis=0)\<close> on a list of tuples:
  the reduction along the first axis. An empty list and rows of different lengths
  raise \<^verbatim>\<open>ValueError\<close>.
\<close>

definition reduce_axis0 :: "('a \<Rightarrow> 'a \<Rightarrow> 'a) \<Rightarrow> 'a list list \<Rightarrow> py_error + 'a list" where
  "reduce_axis0 f rows =
     (case rows of
        [] \<Rightarrow> Inl ValueError
      | r # rs \<Rightarrow>
          if list_all (\<lambda>x. length x = length r) rs then Inr (foldl (map2 f) r rs)
          else Inl ValueError)"

definition np_max_axis0 :: "nat list list \<Rightarrow> py_error + nat list" where
  "np_max_axis0 = reduce_axis0 max"

definition np_min_axis0 :: "real list list \<Rightarrow> py_error + real list" where
  "np_min_axis0 = reduce_axis0 min"

text \<open>
  \<^verbatim>\<open>np.allclose(a, b, atol=atol)\<close>: every element satisfies
  \<^verbatim>\<open>|a - b| <= atol + rtol * |b|\<close>, with numpy's default \<^verbatim>\<open>rtol=1e-05\<close>.
\<close>

definition default_rtol :: real where
  "default_rtol = 1 / 100000"

definition isclose :: "real \<Rightarrow> real \<Rightarrow> real \<Rightarrow> bool" where
  "isclose atol x y = (\<bar>x - y\<bar> \<le> atol + default_rtol * \<bar>y\<bar>)"

definition np_allclose :: "vec \<Rightarrow> vec \<Rightarrow> real \<Rightarrow> py_error + bool" where
  "np_allclose a b atol = ebind (broadcast2 (isclose atol) a b) (\<lambda>cs. Inr (list_all id cs))"

text \<open>\<^verbatim>\<open>np.all(a == b)\<close>. In a run the two arrays have the same length, the target
  shape being computed from these shapes.\<close>

definition np_all_eq :: "nat list \<Rightarrow> nat list \<Rightarrow> py_error + bool" where
  "np_all_eq a b = ebind (broadcast2 (=) a b) (\<lambda>cs. Inr (list_all id cs))"

text \<open>\<^verbatim>\<open>np.diag(v)\<close> of a vector, and \<^verbatim>\<open>A.dot(B)\<close> of two matrices, which raises
  \<^verbatim>\<open>ValueError\<close> unless each row of \<open>A\<close> is as long as \<open>B\<close> has rows. An array
  without rows has no columns either, as \<^verbatim>\<open>np.diag\<close> of an empty vector has.\<close>

definition np_diag :: "vec \<Rightarrow> mat" where
  "np_diag v = map (\<lambda>i. map (\<lambda>j. if i = j then v ! i else 0) [0..<length v]) [0..<length v]"

definition dot_row :: "vec \<Rightarrow> mat \<Rightarrow> vec" where
  "dot_row a B = map (\<lambda>j. (\<Sum>k\<leftarrow>[0..<length B]. a ! k * (B ! k ! j))) [0..<length (hd B)]"

definition np_dot :: "mat \<Rightarrow> mat \<Rightarrow> py_error + mat" where
  "np_dot A B =
     (if A = [] then (if B = [] then Inr [] else Inl ValueError)
      else if list_all (\<lambda>a. length a = length B) A then Inr (map (\<lambda>a. dot_row a B) A)
      else Inl ValueError)"

text \<open>\<^verbatim>\<open>x.astype(int)\<close> on a float: the fractional part is dropped (towards zero).\<close>

definition astype_int :: "real \<Rightarrow> int" where
  "astype_int x = (if 0 \<le> x then \<lfloor>x\<rfloor> else \<lceil>x\<rceil>)"

section \<open>ConformSeries\<close>

text \<open>
  \<^verbatim>\<open>if xyz_unit == 'unknown': xyz_unit = 'mm'\<close>, then the dictionary lookup
  \<^verbatim>\<open>{'meter': 5e-5, 'mm': 0.05, 'micron': 50}[xyz_unit]\<close>.
\<close>

definition atol_table :: "string \<rightharpoonup> real" where
  "atol_table = [''meter'' \<mapsto> 5 / 100000, ''mm'' \<mapsto> 5 / 100, ''micron'' \<mapsto> 50]"

definition get_atol :: "string \<Rightarrow> py_error + real" where
  "get_atol xyz_unit0 =
     (let xyz_unit = (if xyz_unit0 = ''unknown'' then ''mm'' else xyz_unit0)
      in case atol_table xyz_unit of None \<Rightarrow> Inl KeyError | Some atol \<Rightarrow> Inr atol)"

text \<open>\<^verbatim>\<open>affine[:3, :3]\<close> and \<^verbatim>\<open>affine[:3, 3]\<close>.\<close>

definition linear_part :: "mat \<Rightarrow> mat" where
  "linear_part A = map (take 3) (take 3 A)"

definition translation :: "mat \<Rightarrow> vec" where
  "translation A = map (\<lambda>r. r ! 3) (take 3 A)"

text \<open>
  \<^verbatim>\<open>target_affine = np.eye(4)\<close> followed by the two slice assignments
  \<^verbatim>\<open>target_affine[:3, :3] = lin\<close> and \<^verbatim>\<open>target_affine[:3, 3] = tr\<close>.
\<close>

definition assemble_affine :: "mat \<Rightarrow> vec \<Rightarrow> mat" where
  "assemble_affine lin tr = map2 (\<lambda>row t. row @ [t]) lin tr @ [[0, 0, 0, 1]]"

text \<open>Lines 169--173: the linear part of the target affine.\<close>

definition target_linear :: "bool \<Rightarrow> vec \<Rightarrow> vec \<Rightarrow> mat \<Rightarrow> py_error + mat" where
  "target_linear rescale target_zooms zooms0 A =
     (if rescale then
        ebind (broadcast2 (\<lambda>t z. t / z) target_zooms zooms0) (\<lambda>scale_factor.
          np_dot (np_diag scale_factor) (linear_part A))
      else Inr (linear_part A))"

text \<open>Lines 175--183: the translation of the target affine.\<close>

definition target_translation :: "bool \<Rightarrow> nat list \<Rightarrow> nat list \<Rightarrow> mat \<Rightarrow> py_error + vec" where
  "target_translation resize target_shape shape0 A =
     (if resize then
        ebind (broadcast2 (\<lambda>t s. (real t + real s) / (2 * real s)) target_shape shape0)
          (\<lambda>size_factor.
        ebind (broadcast2 (\<lambda>x f. x * f) (translation A) size_factor) (\<lambda>scaled.
        ebind (broadcast2 (\<lambda>x y. astype_int (x - y)) scaled (translation A)) (\<lambda>offset.
          broadcast2 (\<lambda>x d. x + of_int d) (translation A) offset)))
      else Inr (translation A))"

text \<open>
  Lines 153--166: the two decisions taken for one image. \<^verbatim>\<open>rescale\<close> is
  \<^verbatim>\<open>not np.allclose(zooms, target_zooms, atol=atol)\<close> with the tolerance of the
  image's unit, \<^verbatim>\<open>resize\<close> is \<^verbatim>\<open>not np.all(shape == target_shape)\<close>.
\<close>

definition rescale_decision :: "image \<Rightarrow> vec \<Rightarrow> py_error + bool" where
  "rescale_decision img target_zooms =
     (let zooms0 = take 3 (zooms (header img))
      in ebind (get_atol (xyz_unit (header img))) (\<lambda>atol.
         ebind (np_allclose zooms0 target_zooms atol) (\<lambda>close. Inr (\<not> close))))"

definition resize_decision :: "image \<Rightarrow> nat list \<Rightarrow> py_error + bool" where
  "resize_decision img target_shape =
     ebind (np_all_eq (img_shape img) target_shape) (\<lambda>same. Inr (\<not> same))"

text \<open>
  Lines 167--186: the target affine, the call of the resampling collaborator
  (\<^verbatim>\<open>interpolation\<close> is left at its default) and the new image object
  \<^verbatim>\<open>img.__class__(data, target_affine, img.header)\<close>.
\<close>

definition target_affine_of ::
  "bool \<Rightarrow> bool \<Rightarrow> nat list \<Rightarrow> vec \<Rightarrow> image \<Rightarrow> py_error + mat" where
  "target_affine_of rescale resize target_shape target_zooms img =
     ebind (target_linear rescale target_zooms (take 3 (zooms (header img))) (affine img))
       (\<lambda>lin.
     ebind (target_translation resize target_shape (img_shape img) (affine img)) (\<lambda>tr.
       Inr (assemble_affine lin tr)))"

definition resample_onto :: "resampler \<Rightarrow> image \<Rightarrow> mat \<Rightarrow> nat list \<Rightarrow> image" where
  "resample_onto resample img target_affine target_shape =
     (let data = dataobj (resample img target_affine (Some target_shape) Continuous)
      in \<lparr>dataobj = data, affine = target_affine, header = header img\<rparr>)"

text \<open>
  One pass of the loop of lines 152--188: the reference appended to
  \<^verbatim>\<open>resampled_imgs\<close>, and the calls made to the resampling collaborator.
\<close>

definition conform_image ::
  "resampler \<Rightarrow> nat list \<Rightarrow> vec \<Rightarrow> imgref \<Rightarrow> py_error + (imgref \<times> resample_call list)" where
  "conform_image resample target_shape target_zooms r =
     (let img = deref r
      in ebind (rescale_decision img target_zooms) (\<lambda>rescale.
         ebind (resize_decision img target_shape) (\<lambda>resize.
           if rescale \<or> resize then
             ebind (target_affine_of rescale resize target_shape target_zooms img)
               (\<lambda>target_affine.
               Inr (Fresh (resample_onto resample img target_affine target_shape),
                    [(img, target_affine, Some target_shape, Continuous)]))
           else Inr (r, []))))"

text \<open>
  \<^verbatim>\<open>ConformSeries._run_interface\<close>. The collaborators are parameters:
  \<open>load\<close> is \<^verbatim>\<open>nb.load\<close>; \<open>canon\<close> is \<^verbatim>\<open>nb.as_closest_canonical\<close>, which
  returns its argument itself (\<open>None\<close>) when the image is already in canonical
  orientation and a new image object (\<open>Some\<close>) otherwise; \<open>presuffix\<close> is
  \<^verbatim>\<open>fname_presuffix(fname, suffix=..., newpath=...)\<close>. The result holds the
  file operations of lines 193--198, the output \<^verbatim>\<open>t1w_list\<close> and the calls
  made to the resampling collaborator.
\<close>

definition reorient_ref :: "(image \<Rightarrow> image option) \<Rightarrow> image \<Rightarrow> imgref" where
  "reorient_ref canon img = (case canon img of None \<Rightarrow> Orig img | Some img' \<Rightarrow> Fresh img')"

text \<open>Lines 145--146: the list \<^verbatim>\<open>reoriented\<close>.\<close>

definition reoriented_imgs ::
  "(string \<Rightarrow> image) \<Rightarrow> (image \<Rightarrow> image option) \<Rightarrow> string list \<Rightarrow> imgref list" where
  "reoriented_imgs load canon in_names =
     (let orig_imgs = map load in_names in map (reorient_ref canon) orig_imgs)"

definition target_shape_of :: "image list \<Rightarrow> py_error + nat list" where
  "target_shape_of imgs = np_max_axis0 (map img_shape imgs)"

definition target_zooms_of :: "image list \<Rightarrow> py_error + vec" where
  "target_zooms_of imgs = np_min_axis0 (map (\<lambda>img. take 3 (zooms (header img))) imgs)"

definition write_output :: "imgref \<times> string \<times> string \<Rightarrow> file_action" where
  "write_output = (\<lambda>(final, in_name, out_name).
     if is_orig final then Copyfile in_name out_name
     else To_filename (deref final) out_name)"

record conform_result =
  actions :: "file_action list"
  t1w_list :: "string list"
  resample_calls :: "resample_call list"

definition conform_series ::
  "(string \<Rightarrow> image) \<Rightarrow> (image \<Rightarrow> image option) \<Rightarrow> resampler \<Rightarrow>
   (string \<Rightarrow> string \<Rightarrow> string \<Rightarrow> string) \<Rightarrow> string \<Rightarrow> string list \<Rightarrow>
   py_error + conform_result" where
  "conform_series load canon resample presuffix cwd in_names =
     (let reoriented = reoriented_imgs load canon in_names
      in ebind (target_shape_of (map deref reoriented)) (\<lambda>target_shape.
         ebind (target_zooms_of (map deref reoriented)) (\<lambda>target_zooms.
         ebind (for_each (conform_image resample target_shape target_zooms) reoriented)
           (\<lambda>resampled.
           let resampled_imgs = map fst resampled;
               out_names = map (\<lambda>fname. presuffix fname ''_ras'' cwd) in_names
           in Inr \<lparr>actions = map write_output (zip resampled_imgs (zip in_names out_names)),
                   t1w_list = out_names,
                   resample_calls = concat (map snd resampled)\<rparr>))))"

section \<open>The reference grid\<close>

text \<open>
  \<^verbatim>\<open>numpy.round(x, 3)\<close>: the value is scaled by \<open>10 ^ 3\<close>, rounded to the nearest
  integer with ties going to the even one, and scaled back.
\<close>

definition np_rint :: "real \<Rightarrow> int" where
  "np_rint x =
     (let f = \<lfloor>x\<rfloor>; d = x - of_int f
      in if d < 1 / 2 then f else if 1 / 2 < d then f + 1 else if even f then f else f + 1)"

definition np_round :: "nat \<Rightarrow> real \<Rightarrow> real" where
  "np_round decimals x = of_int (np_rint (x * 10 ^ decimals)) / 10 ^ decimals"

text \<open>
  \<^verbatim>\<open>_gen_reference(fixed_image, moving_image, out_file=None)\<close>. \<open>load_img\<close> is
  nilearn's loader (the resampler loads the path it is given), \<open>genfname\<close> is
  \<^verbatim>\<open>fmriprep.utils.misc.genfname\<close>. The result is the file written and the
  returned name.
\<close>

definition gen_reference ::
  "(string \<Rightarrow> image) \<Rightarrow> resampler \<Rightarrow> (string \<Rightarrow> string \<Rightarrow> string) \<Rightarrow>
   string \<Rightarrow> string \<Rightarrow> string option \<Rightarrow> file_action \<times> string" where
  "gen_reference load_img resample genfname fixed_image moving_image out_file0 =
     (let out_file = (case out_file0 of None \<Rightarrow> genfname fixed_image ''reference''
                                      | Some f \<Rightarrow> f);
          new_zooms = take 3 (zooms (header (load_img moving_image)));
          new_zooms_round = map (np_round 3) new_zooms
      in (To_filename (resample (load_img fixed_image) (np_diag new_zooms_round) None Nearest)
            out_file,
          out_file))"

section \<open>The dimensionality check of IntraModalMerge\<close>

text \<open>\<^verbatim>\<open>np.squeeze(a).shape\<close>: the axes of length 1 are removed.\<close>

definition np_squeeze :: "nat list \<Rightarrow> nat list" where
  "np_squeeze s = filter (\<lambda>d. d \<noteq> 1) s"

text \<open>
  Lines 84--106 of \<^verbatim>\<open>IntraModalMerge._run_interface\<close>, on the shapes of the data
  of the input files: what the branch decides to do with them.
\<close>

datatype merge_route =
    Return_single bool
  | Mcflirt_single bool
  | Merge_then_mcflirt

definition intramodal_route :: "nat list list \<Rightarrow> py_error + merge_route" where
  "intramodal_route shapes =
     (if length shapes = 1 then
        (let s = hd shapes
         in ebind (if length s = 5 then
                     (let sq = np_squeeze s
                      in if length sq = 5 then Inl RuntimeError else Inr (True, sq))
                   else Inr (False, s))
              (\<lambda>(squeezed, s').
                 if length (np_squeeze s') < 4 then Inr (Return_single squeezed)
                 else Inr (Mcflirt_single squeezed)))
      else Inr Merge_then_mcflirt)"

section \<open>Measuring an image\<close>



text \<open>The image that an output file holds: the copied input, or the image written.\<close>

definition output_image :: "(string \<Rightarrow> image) \<Rightarrow> file_action \<Rightarrow> image" where
  "output_image load a =
     (case a of Copyfile in_name out_name \<Rightarrow> load in_name | To_filename img out_name \<Rightarrow> img)"

fun is_copy :: "file_action \<Rightarrow> bool" where
  "is_copy (Copyfile in_name out_name) = True"
| "is_copy (To_filename img out_name) = False"




text \<open>Reading the outputs of a run back: each output name loads as what was stored.\<close>

definition reads_back :: "(string \<Rightarrow> image) \<Rightarrow> file_action list \<Rightarrow> bool" where
  "reads_back load acts =
     list_all (\<lambda>a. case a of Copyfile in_name out_name \<Rightarrow> load out_name = load in_name
                           | To_filename img out_name \<Rightarrow> load out_name = img) acts"

section \<open>Example data\<close>

text \<open>An array of zeros, a resampler that returns one on the requested grid, and
  the two naming helpers on plain file names.\<close>

definition blank :: "nat list \<Rightarrow> ndarray" where
  "blank s = \<lparr>shape = s, voxels = replicate (prod_list s) 0\<rparr>"

definition resample_ex :: resampler where
  "resample_ex img A s i =
     \<lparr>dataobj = blank (case s of Some sh \<Rightarrow> sh | None \<Rightarrow> img_shape img),
      affine = assemble_affine (linear_part A)
                 (if length A = 4 then translation A else [0, 0, 0]),
      header = header img\<rparr>"

definition basename :: "string \<Rightarrow> string" where
  "basename fname = rev (takeWhile (\<lambda>c. c \<noteq> CHR ''/'') (rev fname))"

definition presuffix_ex :: "string \<Rightarrow> string \<Rightarrow> string \<Rightarrow> string" where
  "presuffix_ex fname suffix newpath =
     newpath @ ''/'' @ takeWhile (\<lambda>c. c \<noteq> CHR ''.'') (basename fname) @ suffix @
     dropWhile (\<lambda>c. c \<noteq> CHR ''.'') (basename fname)"

definition genfname_ex :: "string \<Rightarrow> string \<Rightarrow> string" where
  "genfname_ex fname suffix =
     takeWhile (\<lambda>c. c \<noteq> CHR ''.'') (basename fname) @ ''_'' @ suffix @
     dropWhile (\<lambda>c. c \<noteq> CHR ''.'') (basename fname)"

text \<open>Three T1w images of 2 mm isotropic spacing, of shapes (64, 64, 30), (64, 64, 36)
  and (64, 64, 36), and one of 1 mm spacing whose unit is not reported.\<close>

definition t1_a :: image where
  "t1_a = \<lparr>dataobj = blank [64, 64, 30],
           affine = [[2, 0, 0, -64], [0, 2, 0, -64], [0, 0, 2, -30], [0, 0, 0, 1]],
           header = \<lparr>zooms = [2, 2, 2], xyz_unit = ''mm''\<rparr>\<rparr>"

definition t1_b :: image where
  "t1_b = \<lparr>dataobj = blank [64, 64, 36],
           affine = [[2, 0, 0, -64], [0, 2, 0, -64], [0, 0, 2, -36], [0, 0, 0, 1]],
           header = \<lparr>zooms = [2, 2, 2], xyz_unit = ''mm''\<rparr>\<rparr>"

definition t1_d :: image where
  "t1_d = \<lparr>dataobj = blank [64, 64, 36],
           affine = [[2, 0, 0, -60], [0, 2, 0, -62], [0, 0, 2, -35], [0, 0, 0, 1]],
           header = \<lparr>zooms = [2, 2, 2], xyz_unit = ''mm''\<rparr>\<rparr>"

definition t1_c :: image where
  "t1_c = \<lparr>dataobj = blank [64, 64, 36],
           affine = [[1, 0, 0, -32], [0, 1, 0, -32], [0, 0, 1, -18], [0, 0, 0, 1]],
           header = \<lparr>zooms = [1, 1, 1], xyz_unit = ''unknown''\<rparr>\<rparr>"

text \<open>
  A two-voxel image stored right-to-left (its first axis points to the left), and
  what \<^verbatim>\<open>nb.as_closest_canonical\<close> returns for it: the first axis flipped, in
  the data and in the affine.
\<close>

definition las_img :: image where
  "las_img = \<lparr>dataobj = \<lparr>shape = [2, 1, 1], voxels = [1, 2]\<rparr>,
              affine = [[-2, 0, 0, 2], [0, 2, 0, 0], [0, 0, 2, 0], [0, 0, 0, 1]],
              header = \<lparr>zooms = [2, 2, 2], xyz_unit = ''mm''\<rparr>\<rparr>"

definition ras_img :: image where
  "ras_img = \<lparr>dataobj = \<lparr>shape = [2, 1, 1], voxels = [2, 1]\<rparr>,
              affine = [[2, 0, 0, 0], [0, 2, 0, 0], [0, 0, 2, 0], [0, 0, 0, 1]],
              header = \<lparr>zooms = [2, 2, 2], xyz_unit = ''mm''\<rparr>\<rparr>"

definition canon_ex :: "image \<Rightarrow> image option" where
  "canon_ex img = (if img = las_img then Some ras_img else None)"

text \<open>A flat image of two axes.\<close>

definition flat_img :: image where
  "flat_img = \<lparr>dataobj = \<lparr>shape = [2, 2], voxels = [1, 2, 3, 4]\<rparr>,
               affine = [[1, 0, 0, 0], [0, 1, 0, 0], [0, 0, 1, 0], [0, 0, 0, 1]],
               header = \<lparr>zooms = [1, 1], xyz_unit = ''mm''\<rparr>\<rparr>"

text \<open>Two moving images for the reference grid, differing in everything but the
  rounded spacing of their first three axes.\<close>

definition moving_a :: image where
  "moving_a = \<lparr>dataobj = \<lparr>shape = [1, 1, 1, 2], voxels = [5, 7]\<rparr>,
               affine = [[1, 0, 0, 0], [0, 1, 0, 0], [0, 0, 1, 0], [0, 0, 0, 1]],
               header = \<lparr>zooms = [10001 / 10000, 10002 / 10000, 9999 / 10000, 2],
                          xyz_unit = ''mm''\<rparr>\<rparr>"

definition moving_b :: image where
  "moving_b = \<lparr>dataobj = \<lparr>shape = [1, 1, 1], voxels = [3]\<rparr>,
               affine = [[0, -1, 0, 4], [1, 0, 0, 5], [0, 0, 1, 6], [0, 0, 0, 1]],
               header = \<lparr>zooms = [1, 10004 / 10000, 1], xyz_unit = ''unknown''\<rparr>\<rparr>"

definition load_ex :: "string \<Rightarrow> image" where
  "load_ex fname =
     (if fname = ''/in/a.nii'' \<or> fname = ''/out/a_ras.nii'' then t1_a
      else if fname = ''/in/b.nii'' \<or> fname = ''/out/b_ras.nii'' then t1_b
      else if fname = ''/in/d.nii'' \<or> fname = ''/out/d_ras.nii'' then t1_d
      else if fname = ''/in/c.nii'' then t1_c
      else if fname = ''/in/las.nii'' then las_img
      else if fname = ''/in/flat.nii'' then flat_img
      else if fname = ''/in/bold_a.nii'' then moving_a
      else if fname = ''/in/bold_b.nii'' then moving_b
      else ras_img)"

section \<open>Basic facts\<close>

lemma ebind_Inr [simp]: "ebind (Inr x) f = f x"
  by (simp add: ebind_def)

lemma ebind_Inl [simp]: "ebind (Inl e) f = Inl e"
  by (simp add: ebind_def)

lemma ebind_eq_Inr: "ebind m f = Inr y \<longleftrightarrow> (\<exists>x. m = Inr x \<and> f x = Inr y)"
  by (cases m) simp_all

section \<open>Element-wise operations\<close>

lemma broadcast2_same_length:
  "length a = length b \<Longrightarrow> broadcast2 f a b = Inr (map2 f a b)"
  by (simp add: broadcast2_def)

lemma list_all_id_map2:
  "length a = length b \<Longrightarrow>
   list_all id (map2 f a b) \<longleftrightarrow> (\<forall>k<length b. f (a ! k) (b ! k))"
  by (auto simp: list_all_length)

lemma np_allclose_same_length:
  "length a = length b \<Longrightarrow>
   np_allclose a b atol = Inr (\<forall>k<length b. isclose atol (a ! k) (b ! k))"
  by (simp add: np_allclose_def broadcast2_same_length list_all_id_map2)

lemma np_all_eq_same_length:
  "length a = length b \<Longrightarrow> np_all_eq a b = Inr (a = b)"
  by (auto simp: np_all_eq_def broadcast2_same_length list_all_id_map2 list_eq_iff_nth_eq)

lemma isclose_within_atol: "\<bar>x - y\<bar> \<le> atol \<Longrightarrow> isclose atol x y"
proof -
  assume h: "\<bar>x - y\<bar> \<le> atol"
  have "0 \<le> default_rtol * \<bar>y\<bar>" by (simp add: default_rtol_def)
  with h show ?thesis unfolding isclose_def by linarith
qed


section \<open>Small vectors and matrices\<close>


lemma upt3: "[0..<3] = [0, 1, 2]"
  by (simp add: upt_rec)


lemma all_less3: "(\<forall>k<3. P k) \<longleftrightarrow> P 0 \<and> P 1 \<and> P (2::nat)"
proof -
  have "k < 3 \<longleftrightarrow> k = 0 \<or> k = 1 \<or> k = 2" for k :: nat by auto
  then show ?thesis by auto
qed






lemma np_dot_diag3:
  "np_dot (np_diag [f0, f1, f2]) [[a0, a1, a2], [b0, b1, b2], [c0, c1, c2]] =
     Inr [[f0 * a0, f0 * a1, f0 * a2], [f1 * b0, f1 * b1, f1 * b2], [f2 * c0, f2 * c1, f2 * c2]]"
  by (simp add: np_dot_def np_diag_def dot_row_def upt3)


section \<open>The target grid\<close>

lemma foldl_map2_length:
  "list_all (\<lambda>x. length x = n) rs \<Longrightarrow> length r = n \<Longrightarrow> length (foldl (map2 f) r rs) = n"
  by (induction rs arbitrary: r) simp_all

lemma foldl_map2_max_nth:
  fixes r :: "('a::linorder) list"
  shows "list_all (\<lambda>x. length x = n) rs \<Longrightarrow> length r = n \<Longrightarrow> k < n \<Longrightarrow>
    foldl (map2 max) r rs ! k = Max ((\<lambda>x. x ! k) ` set (r # rs))"
proof (induction rs arbitrary: r)
  case Nil
  then show ?case by simp
next
  case (Cons a rs)
  from Cons.prems have la: "length a = n" and rest: "list_all (\<lambda>x. length x = n) rs" by simp_all
  have "foldl (map2 max) (map2 max r a) rs ! k = Max ((\<lambda>x. x ! k) ` set (map2 max r a # rs))"
    using Cons.IH [OF rest, of "map2 max r a"] Cons.prems la by simp
  also have "\<dots> = Max (insert (max (r ! k) (a ! k)) ((\<lambda>x. x ! k) ` set rs))"
    using Cons.prems la by simp
  also have "\<dots> = Max ((\<lambda>x. x ! k) ` set (r # a # rs))"
  proof (cases "rs = []")
    case True
    then show ?thesis by (simp add: max.commute)
  next
    case False
    then have ne: "(\<lambda>x. x ! k) ` set rs \<noteq> {}" by simp
    have fin: "finite ((\<lambda>x. x ! k) ` set rs)" by simp
    show ?thesis using ne fin by (simp add: max.assoc)
  qed
  finally show ?case by simp
qed

lemma foldl_map2_min_nth:
  fixes r :: "('a::linorder) list"
  shows "list_all (\<lambda>x. length x = n) rs \<Longrightarrow> length r = n \<Longrightarrow> k < n \<Longrightarrow>
    foldl (map2 min) r rs ! k = Min ((\<lambda>x. x ! k) ` set (r # rs))"
proof (induction rs arbitrary: r)
  case Nil
  then show ?case by simp
next
  case (Cons a rs)
  from Cons.prems have la: "length a = n" and rest: "list_all (\<lambda>x. length x = n) rs" by simp_all
  have "foldl (map2 min) (map2 min r a) rs ! k = Min ((\<lambda>x. x ! k) ` set (map2 min r a # rs))"
    using Cons.IH [OF rest, of "map2 min r a"] Cons.prems la by simp
  also have "\<dots> = Min (insert (min (r ! k) (a ! k)) ((\<lambda>x. x ! k) ` set rs))"
    using Cons.prems la by simp
  also have "\<dots> = Min ((\<lambda>x. x ! k) ` set (r # a # rs))"
  proof (cases "rs = []")
    case True
    then show ?thesis by (simp add: min.commute)
  next
    case False
    then have ne: "(\<lambda>x. x ! k) ` set rs \<noteq> {}" by simp
    have fin: "finite ((\<lambda>x. x ! k) ` set rs)" by simp
    show ?thesis using ne fin by (simp add: min.assoc)
  qed
  finally show ?case by simp
qed

lemma reduce_axis0_ok:
  assumes "rows \<noteq> []" "list_all (\<lambda>x. length x = n) rows"
  shows "reduce_axis0 f rows = Inr (foldl (map2 f) (hd rows) (tl rows))"
  using assms by (cases rows) (simp_all add: reduce_axis0_def)

lemma target_shape_of_ok:
  assumes "imgs \<noteq> []" "list_all (\<lambda>img. length (img_shape img) = n) imgs"
  shows "\<exists>ts. target_shape_of imgs = Inr ts \<and> length ts = n \<and>
           (\<forall>k<n. ts ! k = Max ((\<lambda>img. img_shape img ! k) ` set imgs))"
proof -
  obtain a rest where imgs: "imgs = a # rest" using assms(1) by (cases imgs) auto
  let ?rows = "map img_shape imgs"
  have la: "length (img_shape a) = n" and lr: "list_all (\<lambda>x. length x = n) (map img_shape rest)"
    using assms(2) by (simp_all add: imgs list_all_iff)
  have eq: "target_shape_of imgs = Inr (foldl (map2 max) (img_shape a) (map img_shape rest))"
    using la lr by (simp add: target_shape_of_def np_max_axis0_def reduce_axis0_def imgs)
  have len: "length (foldl (map2 max) (img_shape a) (map img_shape rest)) = n"
    using foldl_map2_length [OF lr la] .
  have nth: "foldl (map2 max) (img_shape a) (map img_shape rest) ! k
      = Max ((\<lambda>img. img_shape img ! k) ` set imgs)" if "k < n" for k
    using foldl_map2_max_nth [OF lr la that] by (simp add: imgs image_image)
  from eq len nth show ?thesis by simp
qed

lemma target_zooms_of_ok:
  assumes "imgs \<noteq> []" "list_all (\<lambda>img. length (take 3 (zooms (header img))) = n) imgs"
  shows "\<exists>tz. target_zooms_of imgs = Inr tz \<and> length tz = n \<and>
           (\<forall>k<n. tz ! k = Min ((\<lambda>img. take 3 (zooms (header img)) ! k) ` set imgs))"
proof -
  obtain a rest where imgs: "imgs = a # rest" using assms(1) by (cases imgs) auto
  let ?z = "\<lambda>img. take 3 (zooms (header img))"
  have la: "length (?z a) = n" and lr: "list_all (\<lambda>x. length x = n) (map ?z rest)"
    using assms(2) by (simp_all add: imgs list_all_iff)
  have eq: "target_zooms_of imgs = Inr (foldl (map2 min) (?z a) (map ?z rest))"
    using la lr by (simp add: target_zooms_of_def np_min_axis0_def reduce_axis0_def imgs)
  have len: "length (foldl (map2 min) (?z a) (map ?z rest)) = n"
    using foldl_map2_length [OF lr la] .
  have nth: "foldl (map2 min) (?z a) (map ?z rest) ! k = Min ((\<lambda>img. ?z img ! k) ` set imgs)"
    if "k < n" for k
    using foldl_map2_min_nth [OF lr la that] by (simp add: imgs image_image)
  from eq len nth show ?thesis by simp
qed

section \<open>One image\<close>

lemma target_linear_explicit:
  "target_linear rescale [t0, t1, t2] [z0, z1, z2]
     [[a0, a1, a2, a3], [b0, b1, b2, b3], [c0, c1, c2, c3], [d0, d1, d2, d3]] =
   Inr (if rescale then
          [[t0 / z0 * a0, t0 / z0 * a1, t0 / z0 * a2],
           [t1 / z1 * b0, t1 / z1 * b1, t1 / z1 * b2],
           [t2 / z2 * c0, t2 / z2 * c1, t2 / z2 * c2]]
        else [[a0, a1, a2], [b0, b1, b2], [c0, c1, c2]])"
  by (simp add: target_linear_def broadcast2_def linear_part_def np_dot_diag3)

lemma target_translation_explicit:
  "target_translation resize [u0, u1, u2] [s0, s1, s2]
     [[a0, a1, a2, a3], [b0, b1, b2, b3], [c0, c1, c2, c3], [d0, d1, d2, d3]] =
   Inr (if resize then
          [a3 + of_int (astype_int (a3 * ((real u0 + real s0) / (2 * real s0)) - a3)),
           b3 + of_int (astype_int (b3 * ((real u1 + real s1) / (2 * real s1)) - b3)),
           c3 + of_int (astype_int (c3 * ((real u2 + real s2) / (2 * real s2)) - c3))]
        else [a3, b3, c3])"
  by (simp add: target_translation_def broadcast2_def translation_def)



lemma conform_image_changed:
  assumes "rescale_decision (deref r) tz = Inr rescale"
    and "resize_decision (deref r) ts = Inr resize"
    and "rescale \<or> resize"
    and "target_affine_of rescale resize ts tz (deref r) = Inr T"
  shows "conform_image resample ts tz r =
     Inr (Fresh (resample_onto resample (deref r) T ts), [(deref r, T, Some ts, Continuous)])"
  using assms by (simp add: conform_image_def Let_def)

lemma conform_image_noop:
  assumes "rescale_decision (deref r) tz = Inr False"
    and "resize_decision (deref r) ts = Inr False"
  shows "conform_image resample ts tz r = Inr (r, [])"
  using assms by (simp add: conform_image_def Let_def)


section \<open>The loop and the series\<close>

lemma for_each_Inr:
  "for_each f xs = Inr ys \<longleftrightarrow>
     length ys = length xs \<and> (\<forall>i<length xs. f (xs ! i) = Inr (ys ! i))"
proof (induction xs arbitrary: ys)
  case Nil
  then show ?case by auto
next
  case (Cons x xs)
  show ?case
  proof (cases ys)
    case Nil
    then show ?thesis by (auto simp: ebind_eq_Inr)
  next
    case (Cons y ys')
    have "for_each f (x # xs) = Inr (y # ys') \<longleftrightarrow> f x = Inr y \<and> for_each f xs = Inr ys'"
      by (auto simp: ebind_eq_Inr)
    also have "\<dots> \<longleftrightarrow> f x = Inr y \<and> length ys' = length xs \<and>
        (\<forall>i<length xs. f (xs ! i) = Inr (ys' ! i))"
      by (simp add: Cons.IH)
    also have "\<dots> \<longleftrightarrow> length (y # ys') = length (x # xs) \<and>
        (\<forall>i<length (x # xs). f ((x # xs) ! i) = Inr ((y # ys') ! i))"
      by (auto simp: nth_Cons split: nat.splits)
    finally show ?thesis by (simp only: Cons)
  qed
qed


lemma length_reoriented_imgs [simp]:
  "length (reoriented_imgs load canon in_names) = length in_names"
  by (simp add: reoriented_imgs_def)

lemma reoriented_imgs_nth:
  "i < length in_names \<Longrightarrow>
   reoriented_imgs load canon in_names ! i = reorient_ref canon (load (in_names ! i))"
  by (simp add: reoriented_imgs_def)

lemma conform_series_Inr:
  "conform_series load canon resample presuffix cwd in_names = Inr res \<longleftrightarrow>
     (\<exists>ts tz rs.
        target_shape_of (map deref (reoriented_imgs load canon in_names)) = Inr ts \<and>
        target_zooms_of (map deref (reoriented_imgs load canon in_names)) = Inr tz \<and>
        for_each (conform_image resample ts tz) (reoriented_imgs load canon in_names) = Inr rs \<and>
        res = \<lparr>actions = map write_output
                  (zip (map fst rs)
                     (zip in_names (map (\<lambda>fname. presuffix fname ''_ras'' cwd) in_names))),
               t1w_list = map (\<lambda>fname. presuffix fname ''_ras'' cwd) in_names,
               resample_calls = concat (map snd rs)\<rparr>)"
  by (auto simp: conform_series_def Let_def ebind_eq_Inr)

lemma conform_series_action_nth:
  assumes "for_each (conform_image resample ts tz) (reoriented_imgs load canon in_names) = Inr rs"
    and "i < length in_names"
  shows "map write_output
           (zip (map fst rs)
              (zip in_names (map (\<lambda>fname. presuffix fname ''_ras'' cwd) in_names))) ! i =
         write_output (fst (rs ! i), in_names ! i, presuffix (in_names ! i) ''_ras'' cwd)"
proof -
  from assms(1) have "length rs = length in_names" by (simp add: for_each_Inr)
  with assms(2) show ?thesis by simp
qed




lemma get_atol_pos: "get_atol u = Inr a \<Longrightarrow> 0 < a"
  by (auto simp: get_atol_def atol_table_def Let_def split: if_splits)

lemma get_atol_values:
  "get_atol ''unknown'' = Inr (5 / 100)" "get_atol ''meter'' = Inr (5 / 100000)"
  "get_atol ''mm'' = Inr (5 / 100)" "get_atol ''micron'' = Inr 50"
  by (simp_all add: get_atol_def atol_table_def)

lemma get_atol_known:
  assumes "u \<in> set [''unknown'', ''meter'', ''mm'', ''micron'']"
  shows "\<exists>a. get_atol u = Inr a"
proof -
  from assms have "u = ''unknown'' \<or> u = ''meter'' \<or> u = ''mm'' \<or> u = ''micron''"
    by simp
  then show ?thesis using get_atol_values by blast
qed

lemma target_zooms_of_lengths:
  assumes "target_zooms_of imgs = Inr tz" "img \<in> set imgs"
  shows "length (take 3 (zooms (header img))) = length tz"
proof -
  obtain a rest where imgs: "imgs = a # rest"
    using assms(2) by (cases imgs) auto
  let ?z = "\<lambda>img. take 3 (zooms (header img))"
  from assms(1) have all: "list_all (\<lambda>x. length x = length (?z a)) (map ?z rest)"
    and tz: "tz = foldl (map2 min) (?z a) (map ?z rest)"
    by (auto simp: target_zooms_of_def np_min_axis0_def reduce_axis0_def imgs split: if_splits)
  have "length tz = length (?z a)"
    unfolding tz using foldl_map2_length [OF all refl] .
  moreover have "length (?z img) = length (?z a)"
    using assms(2) all by (auto simp: imgs list_all_iff)
  ultimately show ?thesis by simp
qed

lemma target_shape_of_lengths:
  assumes "target_shape_of imgs = Inr ts" "img \<in> set imgs"
  shows "length (img_shape img) = length ts"
proof -
  obtain a rest where imgs: "imgs = a # rest"
    using assms(2) by (cases imgs) auto
  from assms(1) have all: "list_all (\<lambda>x. length x = length (img_shape a)) (map img_shape rest)"
    and ts: "ts = foldl (map2 max) (img_shape a) (map img_shape rest)"
    by (auto simp: target_shape_of_def np_max_axis0_def reduce_axis0_def imgs split: if_splits)
  have "length ts = length (img_shape a)"
    unfolding ts using foldl_map2_length [OF all refl] .
  moreover have "length (img_shape img) = length (img_shape a)"
    using assms(2) all by (auto simp: imgs list_all_iff)
  ultimately show ?thesis by simp
qed

lemma rescale_decision_close:
  assumes "get_atol (xyz_unit (header img)) = Inr atol"
    and "length (take 3 (zooms (header img))) = length tz"
    and "\<forall>k<length tz. \<bar>take 3 (zooms (header img)) ! k - tz ! k\<bar> \<le> atol"
  shows "rescale_decision img tz = Inr False"
  using assms by (simp add: rescale_decision_def np_allclose_same_length isclose_within_atol)

lemma resize_decision_same:
  "length (img_shape img) = length ts \<Longrightarrow> resize_decision img ts = Inr (img_shape img \<noteq> ts)"
  by (simp add: resize_decision_def np_all_eq_same_length)

section \<open>Volumetric images\<close>











section \<open>The tolerance table\<close>

text \<open>
  C5. The absolute tolerance is looked up in the fixed table: 5e-5 for meter, 0.05
  for millimeter, 50 for micron; an image whose unit is reported as unknown is treated
  as millimeter and gets 0.05. For every image the rescale decision of the unifier is
  the closeness test with the tolerance so selected for the image's unit, and an
  image of unknown unit is decided as the same image in millimeters is.
\<close>

theorem get_atol_table:
  "get_atol ''meter'' = Inr (5 / 100000) \<and>
   get_atol ''mm'' = Inr (5 / 100) \<and>
   get_atol ''micron'' = Inr 50 \<and>
   get_atol ''unknown'' = Inr (5 / 100) \<and>
   rescale_decision img tz =
     ebind (get_atol (xyz_unit (header img))) (\<lambda>atol.
       ebind (np_allclose (take 3 (zooms (header img))) tz atol) (\<lambda>close. Inr (\<not> close))) \<and>
   rescale_decision (img\<lparr>header := (header img)\<lparr>xyz_unit := ''unknown''\<rparr>\<rparr>) tz =
     rescale_decision (img\<lparr>header := (header img)\<lparr>xyz_unit := ''mm''\<rparr>\<rparr>) tz"
  by (simp add: get_atol_def atol_table_def rescale_decision_def Let_def)

section \<open>Facts about the example data\<close>

lemma t1_a_decisions:
  "rescale_decision t1_a [2, 2, 2] = Inr False"
  "resize_decision t1_a [64, 64, 36] = Inr True"
  by (simp_all add: rescale_decision_def resize_decision_def t1_a_def get_atol_def atol_table_def
      np_allclose_def np_all_eq_def broadcast2_def isclose_def default_rtol_def img_shape_def
      blank_def)

lemma t1_b_decisions:
  "rescale_decision t1_b [2, 2, 2] = Inr False"
  "resize_decision t1_b [64, 64, 36] = Inr False"
  "rescale_decision t1_b [1, 1, 1] = Inr True"
  by (simp_all add: rescale_decision_def resize_decision_def t1_b_def get_atol_def atol_table_def
      np_allclose_def np_all_eq_def broadcast2_def isclose_def default_rtol_def img_shape_def
      blank_def)

lemma t1_c_decisions:
  "rescale_decision t1_c [1, 1, 1] = Inr False"
  "resize_decision t1_c [64, 64, 36] = Inr False"
  by (simp_all add: rescale_decision_def resize_decision_def t1_c_def get_atol_def atol_table_def
      np_allclose_def np_all_eq_def broadcast2_def isclose_def default_rtol_def img_shape_def
      blank_def)


lemma all_less_length3: "(\<forall>k<length [a, b, c]. P k) \<longleftrightarrow> P 0 \<and> P 1 \<and> P 2"
proof -
  have "length [a, b, c] = 3" by simp
  then show ?thesis by (simp only: all_less3)
qed

section \<open>The target affine\<close>


section \<open>The rescale decision\<close>

text \<open>
  C8. The rescale decision is the negation of an element-wise closeness test of the
  image's spacing against the target spacing, with the tolerance \<open>atol\<close> of the
  image's unit: an image is rescaled exactly when on some axis the difference
  exceeds \<open>atol + rtol * |target|\<close>, where \<open>rtol\<close> is numpy's default
  \<open>1e-05\<close>. The decision is a function of spacing, target and unit; a difference
  strictly below \<open>atol\<close> on every axis never triggers a rescale, and neither does a
  difference of exactly \<open>atol\<close>.
\<close>

theorem rescale_decision_tolerance:
  assumes "get_atol (xyz_unit (header img)) = Inr atol"
    and "length (take 3 (zooms (header img))) = length tz"
  shows "rescale_decision img tz =
           Inr (\<exists>k<length tz. atol + default_rtol * \<bar>tz ! k\<bar>
                  < \<bar>take 3 (zooms (header img)) ! k - tz ! k\<bar>) \<and>
         ((\<forall>k<length tz. \<bar>take 3 (zooms (header img)) ! k - tz ! k\<bar> < atol) \<longrightarrow>
            rescale_decision img tz = Inr False) \<and>
         ((\<forall>k<length tz. \<bar>take 3 (zooms (header img)) ! k - tz ! k\<bar> = atol) \<longrightarrow>
            rescale_decision img tz = Inr False)"
proof -
  let ?z = "take 3 (zooms (header img))"
  have dec: "rescale_decision img tz = Inr (\<not> (\<forall>k<length tz. isclose atol (?z ! k) (tz ! k)))"
    using assms by (simp add: rescale_decision_def np_allclose_same_length)
  have a: "rescale_decision img tz =
     Inr (\<exists>k<length tz. atol + default_rtol * \<bar>tz ! k\<bar> < \<bar>?z ! k - tz ! k\<bar>)"
    unfolding dec isclose_def by (auto simp: not_le)
  have b: "rescale_decision img tz = Inr False"
    if "\<forall>k<length tz. \<bar>?z ! k - tz ! k\<bar> \<le> atol"
    unfolding dec using that isclose_within_atol by auto
  from a b show ?thesis by (auto simp: less_imp_le)
qed

text \<open>An image of 2 mm spacing against the targets 1.96 mm (0.04 below: no rescale),
  1.95 mm (exactly 0.05 below: no rescale) and 1.9 mm (rescale).\<close>

theorem rescale_decision_tolerance_witness:
  "rescale_decision t1_b [196 / 100, 196 / 100, 196 / 100] = Inr False \<and>
   rescale_decision t1_b [195 / 100, 195 / 100, 195 / 100] = Inr False \<and>
   rescale_decision t1_b [19 / 10, 19 / 10, 19 / 10] = Inr True"
proof -
  have u: "get_atol (xyz_unit (header t1_b)) = Inr (5 / 100)"
    by (simp add: t1_b_def get_atol_def atol_table_def)
  have z: "take 3 (zooms (header t1_b)) = [2, 2, 2]"
    by (simp add: t1_b_def)
  have l: "length (take 3 (zooms (header t1_b))) = length [x, y, w]" for x y w :: real
    by (simp add: z)
  have below: "\<forall>k<length [196 / 100, 196 / 100, 196 / 100 :: real].
      \<bar>take 3 (zooms (header t1_b)) ! k - [196 / 100, 196 / 100, 196 / 100] ! k\<bar> < 5 / 100"
    unfolding z all_less_length3 by simp
  have exact: "\<forall>k<length [195 / 100, 195 / 100, 195 / 100 :: real].
      \<bar>take 3 (zooms (header t1_b)) ! k - [195 / 100, 195 / 100, 195 / 100] ! k\<bar> = 5 / 100"
    unfolding z all_less_length3 by simp
  have above: "\<exists>k<length [19 / 10, 19 / 10, 19 / 10 :: real].
      5 / 100 + default_rtol * \<bar>[19 / 10, 19 / 10, 19 / 10] ! k\<bar>
        < \<bar>take 3 (zooms (header t1_b)) ! k - [19 / 10, 19 / 10, 19 / 10] ! k\<bar>"
    by (rule exI [of _ 0]) (simp add: z default_rtol_def)
  have "rescale_decision t1_b [196 / 100, 196 / 100, 196 / 100] = Inr False"
    using rescale_decision_tolerance [OF u l, of "196 / 100" "196 / 100" "196 / 100"] below
    by blast
  moreover have "rescale_decision t1_b [195 / 100, 195 / 100, 195 / 100] = Inr False"
    using rescale_decision_tolerance [OF u l, of "195 / 100" "195 / 100" "195 / 100"] exact
    by blast
  moreover have "rescale_decision t1_b [19 / 10, 19 / 10, 19 / 10] = Inr True"
    using rescale_decision_tolerance [OF u l, of "19 / 10" "19 / 10" "19 / 10"] above
    by simp
  ultimately show ?thesis by simp
qed

section \<open>The reference grid synthesizer\<close>

lemma length_np_diag [simp]: "length (np_diag v) = length v"
  by (simp add: np_diag_def)










text \<open>
  C10. The reference depends on the moving image only through the first three header
  spacings rounded to 3 decimals: two moving images whose rounded spacings agree give
  the same result for the same fixed image, whatever their data, affines and other
  header fields are.
\<close>

theorem gen_reference_depends_on_rounded_zooms:
  assumes "map (np_round 3) (take 3 (zooms (header (load_img m1)))) =
           map (np_round 3) (take 3 (zooms (header (load_img m2))))"
  shows "gen_reference load_img resample genfname fixed m1 out_file =
         gen_reference load_img resample genfname fixed m2 out_file"
  using assms by (simp add: gen_reference_def Let_def)

theorem gen_reference_depends_on_rounded_zooms_witness:
  "dataobj moving_a \<noteq> dataobj moving_b \<and> affine moving_a \<noteq> affine moving_b \<and>
   header moving_a \<noteq> header moving_b \<and>
   gen_reference load_ex resample_ex genfname_ex ''/in/a.nii'' ''/in/bold_a.nii'' None =
   gen_reference load_ex resample_ex genfname_ex ''/in/a.nii'' ''/in/bold_b.nii'' None"
proof -
  have r: "map (np_round 3) (take 3 (zooms (header (load_ex ''/in/bold_a.nii'')))) =
           map (np_round 3) (take 3 (zooms (header (load_ex ''/in/bold_b.nii''))))"
    by (simp add: load_ex_def moving_a_def moving_b_def np_round_def np_rint_def Let_def)
  have d: "dataobj moving_a \<noteq> dataobj moving_b" "affine moving_a \<noteq> affine moving_b"
    "header moving_a \<noteq> header moving_b"
    by (simp_all add: moving_a_def moving_b_def)
  from gen_reference_depends_on_rounded_zooms [where load_img = load_ex
      and ?m1.0 = "''/in/bold_a.nii''" and ?m2.0 = "''/in/bold_b.nii''" and resample = resample_ex
      and genfname = genfname_ex and fixed = "''/in/a.nii''" and out_file = None] r d
  show ?thesis by simp
qed

section \<open>Images that need no change\<close>

lemma las_facts:
  "load_ex ''/in/las.nii'' = las_img" "canon_ex las_img = Some ras_img" "canon_ex ras_img = None"
  "las_img \<noteq> ras_img" "load_ex ''/in/ras.nii'' = ras_img"
  by (simp_all add: load_ex_def canon_ex_def las_img_def ras_img_def)

lemma ras_decisions:
  "rescale_decision ras_img [2, 2, 2] = Inr False"
  "resize_decision ras_img [2, 1, 1] = Inr False"
  by (simp_all add: rescale_decision_def resize_decision_def ras_img_def get_atol_def
      atol_table_def np_allclose_def np_all_eq_def broadcast2_def isclose_def default_rtol_def
      img_shape_def)

lemma ras_targets:
  "target_shape_of [ras_img] = Inr [2, 1, 1]" "target_zooms_of [ras_img] = Inr [2, 2, 2]"
  "target_shape_of [ras_img, ras_img] = Inr [2, 1, 1]"
  "target_zooms_of [ras_img, ras_img] = Inr [2, 2, 2]"
  by (simp_all add: target_shape_of_def target_zooms_of_def np_max_axis0_def np_min_axis0_def
      reduce_axis0_def ras_img_def img_shape_def)

lemma t1_a_target:
  "target_affine_of False True [64, 64, 36] [2, 2, 2] t1_a =
     Inr [[2, 0, 0, - 64], [0, 2, 0, - 64], [0, 0, 2, - 33], [0, 0, 0, 1]]"
  by (simp add: target_affine_of_def target_linear_explicit target_translation_explicit t1_a_def
      img_shape_def blank_def assemble_affine_def astype_int_def)

lemma refs_ab:
  "reoriented_imgs load_ex canon_ex [''/in/a.nii'', ''/in/b.nii''] = [Orig t1_a, Orig t1_b]"
  by (simp add: reoriented_imgs_def load_ex_def canon_ex_def reorient_ref_def t1_a_def t1_b_def
      las_img_def blank_def)

lemma targets_ab:
  "target_shape_of [t1_a, t1_b] = Inr [64, 64, 36]" "target_zooms_of [t1_a, t1_b] = Inr [2, 2, 2]"
  by (simp_all add: target_shape_of_def target_zooms_of_def np_max_axis0_def np_min_axis0_def
      reduce_axis0_def t1_a_def t1_b_def img_shape_def blank_def)

lemma conform_t1_a:
  "conform_image resample_ex [64, 64, 36] [2, 2, 2] (Orig t1_a) =
     Inr (Fresh (resample_onto resample_ex t1_a
                   [[2, 0, 0, - 64], [0, 2, 0, - 64], [0, 0, 2, - 33], [0, 0, 0, 1]] [64, 64, 36]),
          [(t1_a, [[2, 0, 0, - 64], [0, 2, 0, - 64], [0, 0, 2, - 33], [0, 0, 0, 1]],
            Some [64, 64, 36], Continuous)])"
  using conform_image_changed [where r = "Orig t1_a" and tz = "[2, 2, 2]"
      and ts = "[64, 64, 36]" and rescale = False and resize = True and resample = resample_ex]
    t1_a_decisions t1_a_target by simp

lemma conform_t1_b:
  "conform_image resample_ex [64, 64, 36] [2, 2, 2] (Orig t1_b) = Inr (Orig t1_b, [])"
  using conform_image_noop [of "Orig t1_b"] t1_b_decisions by simp

lemma out_names_ex:
  "presuffix_ex ''/in/las.nii'' ''_ras'' ''/out'' = ''/out/las_ras.nii''"
  "presuffix_ex ''/in/ras.nii'' ''_ras'' ''/out'' = ''/out/ras_ras.nii''"
  "presuffix_ex ''/in/a.nii'' ''_ras'' ''/out'' = ''/out/a_ras.nii''"
  "presuffix_ex ''/in/b.nii'' ''_ras'' ''/out'' = ''/out/b_ras.nii''"
  "presuffix_ex ''/in/flat.nii'' ''_ras'' ''/out'' = ''/out/flat_ras.nii''"
  by (simp_all add: presuffix_ex_def basename_def)

lemma run_ab:
  "conform_series load_ex canon_ex resample_ex presuffix_ex ''/out'' [''/in/a.nii'', ''/in/b.nii''] =
     Inr \<lparr>actions =
            [To_filename (resample_onto resample_ex t1_a
                 [[2, 0, 0, - 64], [0, 2, 0, - 64], [0, 0, 2, - 33], [0, 0, 0, 1]] [64, 64, 36])
               ''/out/a_ras.nii'',
             Copyfile ''/in/b.nii'' ''/out/b_ras.nii''],
          t1w_list = [''/out/a_ras.nii'', ''/out/b_ras.nii''],
          resample_calls =
            [(t1_a, [[2, 0, 0, - 64], [0, 2, 0, - 64], [0, 0, 2, - 33], [0, 0, 0, 1]],
              Some [64, 64, 36], Continuous)]\<rparr>"
  by (simp add: conform_series_def Let_def refs_ab targets_ab conform_t1_a conform_t1_b
      write_output_def out_names_ex del: One_nat_def)

text \<open>
  C2. An image whose shape equals the target shape and whose spacing is within the
  tolerance of its unit of the target spacing, on every axis, goes through the loop
  unchanged and no call of the resampling collaborator is made for it. Its output
  is a copy of the input file (\<^verbatim>\<open>copyfile\<close>, hard link allowed) when
  \<^verbatim>\<open>as_closest_canonical\<close> returned the loaded image itself; when the unifier
  had to reorient the image, the output is the reoriented image written with
  \<^verbatim>\<open>to_filename\<close>.
\<close>

theorem unchanged_image_output:
  assumes run: "conform_series load canon resample presuffix cwd in_names = Inr res"
    and ts: "target_shape_of (map deref (reoriented_imgs load canon in_names)) = Inr ts"
    and tz: "target_zooms_of (map deref (reoriented_imgs load canon in_names)) = Inr tz"
    and i: "i < length in_names"
    and r: "r = reoriented_imgs load canon in_names ! i"
    and shape: "img_shape (deref r) = ts"
    and atol: "get_atol (xyz_unit (header (deref r))) = Inr atol"
    and close: "\<forall>k<length tz. \<bar>take 3 (zooms (header (deref r))) ! k - tz ! k\<bar> \<le> atol"
  shows "conform_image resample ts tz r = Inr (r, []) \<and>
         actions res ! i =
           (case canon (load (in_names ! i)) of
              None \<Rightarrow> Copyfile (in_names ! i) (presuffix (in_names ! i) ''_ras'' cwd)
            | Some img' \<Rightarrow> To_filename img' (presuffix (in_names ! i) ''_ras'' cwd)) \<and>
         (canon (load (in_names ! i)) = None \<longrightarrow>
            is_copy (actions res ! i) \<and>
            output_image load (actions res ! i) = load (in_names ! i))"
proof -
  let ?refs = "reoriented_imgs load canon in_names"
  let ?out = "presuffix (in_names ! i) ''_ras'' cwd"
  from run ts tz obtain rs where
    loop: "for_each (conform_image resample ts tz) ?refs = Inr rs"
    and res: "actions res = map write_output
                  (zip (map fst rs)
                     (zip in_names (map (\<lambda>fname. presuffix fname ''_ras'' cwd) in_names)))"
    by (auto simp: conform_series_Inr)
  have mem: "deref r \<in> set (map deref ?refs)" using i r by simp
  have lz: "length (take 3 (zooms (header (deref r)))) = length tz"
    using target_zooms_of_lengths [OF tz mem] .
  have no_rescale: "rescale_decision (deref r) tz = Inr False"
    using rescale_decision_close [OF atol lz close] .
  have no_resize: "resize_decision (deref r) ts = Inr False"
    using resize_decision_same [of "deref r" ts] shape by simp
  have same: "conform_image resample ts tz r = Inr (r, [])"
    using conform_image_noop [OF no_rescale no_resize] .
  from loop i have "conform_image resample ts tz (?refs ! i) = Inr (rs ! i)"
    by (simp add: for_each_Inr)
  with same r have "rs ! i = (r, [])" by simp
  then have fin: "fst (rs ! i) = reorient_ref canon (load (in_names ! i))"
    using i r by (simp add: reoriented_imgs_nth)
  have act: "actions res ! i = write_output (fst (rs ! i), in_names ! i, ?out)"
    unfolding res using conform_series_action_nth [OF loop i] .
  have a: "actions res ! i =
           (case canon (load (in_names ! i)) of
              None \<Rightarrow> Copyfile (in_names ! i) ?out
            | Some img' \<Rightarrow> To_filename img' ?out)"
    by (simp add: act fin write_output_def reorient_ref_def split: option.splits)
  have b: "is_copy (actions res ! i) \<and> output_image load (actions res ! i) = load (in_names ! i)"
    if "canon (load (in_names ! i)) = None"
    using that by (simp add: a output_image_def)
  from same a b show ?thesis by blast
qed

text \<open>The scenario of two images of shapes (64, 64, 30) and (64, 64, 36): the second
  one already has the target shape and spacing and is copied.\<close>

theorem unchanged_image_output_witness:
  "conform_image resample_ex [64, 64, 36] [2, 2, 2] (Orig t1_b) = Inr (Orig t1_b, []) \<and>
   (\<exists>res. conform_series load_ex canon_ex resample_ex presuffix_ex ''/out''
            [''/in/a.nii'', ''/in/b.nii''] = Inr res \<and>
          actions res ! 1 = Copyfile ''/in/b.nii'' ''/out/b_ras.nii'' \<and>
          output_image load_ex (actions res ! 1) = t1_b)"
proof -
  let ?names = "[''/in/a.nii'', ''/in/b.nii'']"
  have ts: "target_shape_of (map deref (reoriented_imgs load_ex canon_ex ?names)) = Inr [64, 64, 36]"
    by (simp add: refs_ab targets_ab)
  have tz: "target_zooms_of (map deref (reoriented_imgs load_ex canon_ex ?names)) = Inr [2, 2, 2]"
    by (simp add: refs_ab targets_ab)
  have i: "1 < length ?names" by simp
  have r: "Orig t1_b = reoriented_imgs load_ex canon_ex ?names ! 1" by (simp add: refs_ab)
  have shape: "img_shape (deref (Orig t1_b)) = [64, 64, 36]"
    by (simp add: t1_b_def img_shape_def blank_def)
  have atol: "get_atol (xyz_unit (header (deref (Orig t1_b)))) = Inr (5 / 100)"
    by (simp add: t1_b_def get_atol_values)
  have close: "\<forall>k<length [2, 2, 2 :: real].
      \<bar>take 3 (zooms (header (deref (Orig t1_b)))) ! k - [2, 2, 2] ! k\<bar> \<le> 5 / 100"
    unfolding all_less_length3 by (simp add: t1_b_def)
  have c: "canon_ex (load_ex (?names ! 1)) = None" "load_ex (?names ! 1) = t1_b"
    "?names ! 1 = ''/in/b.nii''"
    by (simp_all add: load_ex_def canon_ex_def t1_b_def las_img_def blank_def)
  from unchanged_image_output [OF run_ab ts tz i r shape atol close] c out_names_ex
  show ?thesis by (simp add: run_ab)
qed

text \<open>
  As stated, without the condition on the orientation, the claim fails: the image
  loaded from \<^verbatim>\<open>/in/las.nii\<close> has the target shape and the target spacing and is
  not resampled, but its output is written from the reoriented image, which differs
  from the input in data and affine, and is not a copy.
\<close>

theorem reoriented_image_not_copied:
  "conform_series load_ex canon_ex resample_ex presuffix_ex ''/out'' [''/in/las.nii''] =
     Inr \<lparr>actions = [To_filename ras_img ''/out/las_ras.nii''],
          t1w_list = [''/out/las_ras.nii''], resample_calls = []\<rparr> \<and>
   load_ex ''/in/las.nii'' = las_img \<and> ras_img \<noteq> las_img \<and>
   voxels (dataobj las_img) = [1, 2] \<and> voxels (dataobj ras_img) = [2, 1] \<and>
   target_shape_of [ras_img] = Inr (img_shape las_img) \<and>
   target_zooms_of [ras_img] = Inr (take 3 (zooms (header las_img)))"
proof -
  have refs: "reoriented_imgs load_ex canon_ex [''/in/las.nii''] = [Fresh ras_img]"
    by (simp add: reoriented_imgs_def las_facts reorient_ref_def)
  have c: "conform_image resample_ex [2, 1, 1] [2, 2, 2] (Fresh ras_img) = Inr (Fresh ras_img, [])"
    using conform_image_noop [of "Fresh ras_img"] ras_decisions by simp
  have run: "conform_series load_ex canon_ex resample_ex presuffix_ex ''/out'' [''/in/las.nii''] =
     Inr \<lparr>actions = [To_filename ras_img ''/out/las_ras.nii''],
          t1w_list = [''/out/las_ras.nii''], resample_calls = []\<rparr>"
    by (simp add: conform_series_def Let_def refs ras_targets c write_output_def out_names_ex
        del: One_nat_def)
  have rest: "voxels (dataobj las_img) = [1, 2]" "voxels (dataobj ras_img) = [2, 1]"
    "target_shape_of [ras_img] = Inr (img_shape las_img)"
    "target_zooms_of [ras_img] = Inr (take 3 (zooms (header las_img)))"
    by (simp_all add: ras_targets) (simp_all add: las_img_def ras_img_def img_shape_def)
  from run rest las_facts show ?thesis by simp
qed

section \<open>A series that is already conformed\<close>

lemma zip_map_triple:
  "zip (map f xs) (zip xs (map g xs)) = map (\<lambda>x. (f x, x, g x)) xs"
  by (induction xs) simp_all

lemma for_each_all:
  assumes "\<forall>x\<in>set xs. f x = Inr (g x)"
  shows "for_each f xs = Inr (map g xs)"
  using assms by (induction xs) simp_all

lemma target_shape_of_const:
  assumes "imgs \<noteq> []" "\<forall>img\<in>set imgs. img_shape img = s"
  shows "target_shape_of imgs = Inr s"
proof -
  have all: "list_all (\<lambda>img. length (img_shape img) = length s) imgs"
    using assms(2) by (simp add: list_all_iff)
  from target_shape_of_ok [OF assms(1) all] obtain ts where
    ts: "target_shape_of imgs = Inr ts" and len: "length ts = length s"
    and nth: "\<forall>k<length s. ts ! k = Max ((\<lambda>img. img_shape img ! k) ` set imgs)"
    by blast
  have "(\<lambda>img. img_shape img ! k) ` set imgs = {s ! k}" for k
  proof -
    have "(\<lambda>img. img_shape img ! k) ` set imgs = (\<lambda>img. s ! k) ` set imgs"
      using assms(2) by (intro image_cong) auto
    also have "\<dots> = {s ! k}" using assms(1) by (simp add: image_constant_conv)
    finally show ?thesis .
  qed
  with nth have "\<forall>k<length s. ts ! k = s ! k" by simp
  with len have "ts = s" by (simp add: list_eq_iff_nth_eq)
  with ts show ?thesis by simp
qed

lemma target_zooms_of_const:
  assumes "imgs \<noteq> []" "\<forall>img\<in>set imgs. take 3 (zooms (header img)) = z"
  shows "target_zooms_of imgs = Inr z"
proof -
  have all: "list_all (\<lambda>img. length (take 3 (zooms (header img))) = length z) imgs"
    using assms(2) by (simp add: list_all_iff del: length_take)
  from target_zooms_of_ok [OF assms(1) all] obtain tz where
    tz: "target_zooms_of imgs = Inr tz" and len: "length tz = length z"
    and nth: "\<forall>k<length z. tz ! k = Min ((\<lambda>img. take 3 (zooms (header img)) ! k) ` set imgs)"
    by blast
  have "(\<lambda>img. take 3 (zooms (header img)) ! k) ` set imgs = {z ! k}" for k
  proof -
    have "(\<lambda>img. take 3 (zooms (header img)) ! k) ` set imgs = (\<lambda>img. z ! k) ` set imgs"
      using assms(2) by (intro image_cong) auto
    also have "\<dots> = {z ! k}" using assms(1) by (simp add: image_constant_conv)
    finally show ?thesis .
  qed
  with nth have "\<forall>k<length z. tz ! k = z ! k" by simp
  with len have "tz = z" by (simp add: list_eq_iff_nth_eq)
  with tz show ?thesis by simp
qed

lemma conformed_series_copies:
  assumes ne: "in_names \<noteq> []"
    and canonical: "\<forall>n\<in>set in_names. canon (load n) = None"
    and same_shape: "\<forall>n\<in>set in_names. img_shape (load n) = s"
    and same_zooms: "\<forall>n\<in>set in_names. take 3 (zooms (header (load n))) = z"
    and units: "\<forall>n\<in>set in_names.
                  xyz_unit (header (load n)) \<in> set [''unknown'', ''meter'', ''mm'', ''micron'']"
  shows "conform_series load canon resample presuffix cwd in_names =
           Inr \<lparr>actions = map (\<lambda>n. Copyfile n (presuffix n ''_ras'' cwd)) in_names,
                t1w_list = map (\<lambda>n. presuffix n ''_ras'' cwd) in_names,
                resample_calls = []\<rparr>"
proof -
  let ?refs = "reoriented_imgs load canon in_names"
  have refs: "?refs = map (\<lambda>n. Orig (load n)) in_names"
    using canonical by (simp add: reoriented_imgs_def reorient_ref_def)
  have imgs: "map deref ?refs = map load in_names"
    by (simp add: refs comp_def)
  have ts: "target_shape_of (map deref ?refs) = Inr s"
    unfolding imgs using ne same_shape by (intro target_shape_of_const) auto
  have tz: "target_zooms_of (map deref ?refs) = Inr z"
    unfolding imgs using ne same_zooms by (intro target_zooms_of_const) auto
  have one: "conform_image resample s z (Orig (load n)) = Inr (Orig (load n), [])"
    if n: "n \<in> set in_names" for n
  proof -
    from units n obtain a where a: "get_atol (xyz_unit (header (load n))) = Inr a"
      using get_atol_known by blast
    have z: "take 3 (zooms (header (load n))) = z" using same_zooms n by simp
    have "\<forall>k<length z. \<bar>take 3 (zooms (header (load n))) ! k - z ! k\<bar> \<le> a"
      using get_atol_pos [OF a] by (simp add: z)
    then have 1: "rescale_decision (deref (Orig (load n))) z = Inr False"
      using rescale_decision_close [of "load n" a z] a z by simp
    have 2: "resize_decision (deref (Orig (load n))) s = Inr False"
      using resize_decision_same [of "load n" s] same_shape n by simp
    show ?thesis using conform_image_noop [OF 1 2] .
  qed
  have loop: "for_each (conform_image resample s z) ?refs =
      Inr (map (\<lambda>r. (r, [])) ?refs)"
    unfolding refs using one by (intro for_each_all) auto
  have cat: "concat (map snd (map (\<lambda>r. (r, [] :: resample_call list)) ?refs)) = []"
    by (simp add: comp_def)
  show ?thesis
    unfolding conform_series_def Let_def ts tz loop ebind_Inr cat
    by (simp add: refs comp_def zip_map_triple [of "\<lambda>n. Orig (load n)" in_names]
        write_output_def)
qed

text \<open>
  C6. For a series of canonically oriented images (\<^verbatim>\<open>as_closest_canonical\<close>
  returns each loaded image itself) that share one shape and one spacing, the run is
  a no-op: every output is a copy of its input and the resampling collaborator is
  never called. Run again on its own outputs, read back as they were stored, the
  unifier again only copies, and the images held by the new outputs are those of the
  first run.
\<close>

theorem conform_series_idempotent:
  assumes ne: "in_names \<noteq> []"
    and canonical: "\<forall>n\<in>set in_names. canon (load n) = None"
    and same_shape: "\<forall>n\<in>set in_names. img_shape (load n) = s"
    and same_zooms: "\<forall>n\<in>set in_names. take 3 (zooms (header (load n))) = z"
    and units: "\<forall>n\<in>set in_names.
                  xyz_unit (header (load n)) \<in> set [''unknown'', ''meter'', ''mm'', ''micron'']"
  shows "\<exists>res. conform_series load canon resample presuffix cwd in_names = Inr res \<and>
           actions res = map (\<lambda>n. Copyfile n (presuffix n ''_ras'' cwd)) in_names \<and>
           t1w_list res = map (\<lambda>n. presuffix n ''_ras'' cwd) in_names \<and>
           resample_calls res = [] \<and>
           map (output_image load) (actions res) = map load in_names \<and>
           (reads_back load (actions res) \<longrightarrow>
              (\<exists>res2. conform_series load canon resample presuffix cwd2 (t1w_list res) = Inr res2 \<and>
                  actions res2 =
                    map (\<lambda>n. Copyfile n (presuffix n ''_ras'' cwd2)) (t1w_list res) \<and>
                  resample_calls res2 = [] \<and>
                  map (output_image load) (actions res2) = map (output_image load) (actions res)))"
proof -
  let ?out = "\<lambda>n. presuffix n ''_ras'' cwd"
  let ?res = "\<lparr>actions = map (\<lambda>n. Copyfile n (?out n)) in_names,
               t1w_list = map ?out in_names, resample_calls = []\<rparr>"
  have run: "conform_series load canon resample presuffix cwd in_names = Inr ?res"
    using conformed_series_copies [OF assms] .
  have imgs: "map (output_image load) (actions ?res) = map load in_names"
    by (simp add: comp_def output_image_def)
  have again: "\<exists>res2. conform_series load canon resample presuffix cwd2 (t1w_list ?res) = Inr res2 \<and>
        actions res2 = map (\<lambda>n. Copyfile n (presuffix n ''_ras'' cwd2)) (t1w_list ?res) \<and>
        resample_calls res2 = [] \<and>
        map (output_image load) (actions res2) = map (output_image load) (actions ?res)"
    if rb: "reads_back load (actions ?res)"
  proof -
    from rb have same: "\<forall>n\<in>set in_names. load (?out n) = load n"
      by (simp add: reads_back_def list_all_iff)
    let ?names2 = "map ?out in_names"
    have ne2: "?names2 \<noteq> []" using ne by simp
    have c2: "\<forall>n\<in>set ?names2. canon (load n) = None" using canonical same by auto
    have s2: "\<forall>n\<in>set ?names2. img_shape (load n) = s" using same_shape same by auto
    have z2: "\<forall>n\<in>set ?names2. take 3 (zooms (header (load n))) = z" using same_zooms same by auto
    have u2: "\<forall>n\<in>set ?names2.
        xyz_unit (header (load n)) \<in> set [''unknown'', ''meter'', ''mm'', ''micron'']"
      using units same by auto
    have run2: "conform_series load canon resample presuffix cwd2 ?names2 =
        Inr \<lparr>actions = map (\<lambda>n. Copyfile n (presuffix n ''_ras'' cwd2)) ?names2,
             t1w_list = map (\<lambda>n. presuffix n ''_ras'' cwd2) ?names2, resample_calls = []\<rparr>"
      using conformed_series_copies [OF ne2 c2 s2 z2 u2] .
    have "map (output_image load)
            (map (\<lambda>n. Copyfile n (presuffix n ''_ras'' cwd2)) ?names2) = map load in_names"
      using same by (simp add: comp_def output_image_def)
    with run2 imgs show ?thesis by simp
  qed
  from run imgs again show ?thesis by (intro exI [of _ ?res]) simp
qed

text \<open>Two different images of shape (64, 64, 36) and 2 mm spacing: both are copied,
  and so are the copies.\<close>

theorem conform_series_idempotent_witness:
  "\<exists>res. conform_series load_ex canon_ex resample_ex presuffix_ex ''/out''
            [''/in/b.nii'', ''/in/d.nii''] = Inr res \<and>
         actions res = [Copyfile ''/in/b.nii'' ''/out/b_ras.nii'',
                        Copyfile ''/in/d.nii'' ''/out/d_ras.nii''] \<and>
         resample_calls res = [] \<and>
         (\<exists>res2. conform_series load_ex canon_ex resample_ex presuffix_ex ''/out2''
                    (t1w_list res) = Inr res2 \<and>
                  actions res2 = [Copyfile ''/out/b_ras.nii'' ''/out2/b_ras_ras.nii'',
                                  Copyfile ''/out/d_ras.nii'' ''/out2/d_ras_ras.nii''] \<and>
                  resample_calls res2 = [] \<and>
                  map (output_image load_ex) (actions res2) = [t1_b, t1_d])"
proof -
  let ?names = "[''/in/b.nii'', ''/in/d.nii'']"
  have ld: "load_ex ''/in/b.nii'' = t1_b" "load_ex ''/in/d.nii'' = t1_d"
    "load_ex ''/out/b_ras.nii'' = t1_b" "load_ex ''/out/d_ras.nii'' = t1_d"
    by (simp_all add: load_ex_def)
  have cn: "canon_ex t1_b = None" "canon_ex t1_d = None"
    by (simp_all add: canon_ex_def t1_b_def t1_d_def las_img_def blank_def)
  have ne: "?names \<noteq> []" by simp
  have canonical: "\<forall>n\<in>set ?names. canon_ex (load_ex n) = None" by (simp add: ld cn)
  have same_shape: "\<forall>n\<in>set ?names. img_shape (load_ex n) = [64, 64, 36]"
    by (simp add: ld) (simp add: t1_b_def t1_d_def img_shape_def blank_def)
  have same_zooms: "\<forall>n\<in>set ?names. take 3 (zooms (header (load_ex n))) = [2, 2, 2]"
    by (simp add: ld) (simp add: t1_b_def t1_d_def)
  have units: "\<forall>n\<in>set ?names.
      xyz_unit (header (load_ex n)) \<in> set [''unknown'', ''meter'', ''mm'', ''micron'']"
    by (simp add: ld) (simp add: t1_b_def t1_d_def)
  have names: "presuffix_ex ''/in/b.nii'' ''_ras'' ''/out'' = ''/out/b_ras.nii''"
    "presuffix_ex ''/in/d.nii'' ''_ras'' ''/out'' = ''/out/d_ras.nii''"
    "presuffix_ex ''/out/b_ras.nii'' ''_ras'' ''/out2'' = ''/out2/b_ras_ras.nii''"
    "presuffix_ex ''/out/d_ras.nii'' ''_ras'' ''/out2'' = ''/out2/d_ras_ras.nii''"
    by (simp_all add: presuffix_ex_def basename_def)
  from conform_series_idempotent [OF ne canonical same_shape same_zooms units,
      of resample_ex presuffix_ex "''/out''" "''/out2''"]
  obtain res where
    run: "conform_series load_ex canon_ex resample_ex presuffix_ex ''/out'' ?names = Inr res"
    and act: "actions res = map (\<lambda>n. Copyfile n (presuffix_ex n ''_ras'' ''/out'')) ?names"
    and out0: "t1w_list res = map (\<lambda>n. presuffix_ex n ''_ras'' ''/out'') ?names"
    and calls: "resample_calls res = []"
    and imgs: "map (output_image load_ex) (actions res) = map load_ex ?names"
    and rerun: "reads_back load_ex (actions res) \<longrightarrow>
       (\<exists>res2. conform_series load_ex canon_ex resample_ex presuffix_ex ''/out2'' (t1w_list res) =
                  Inr res2 \<and>
          actions res2 = map (\<lambda>n. Copyfile n (presuffix_ex n ''_ras'' ''/out2'')) (t1w_list res) \<and>
          resample_calls res2 = [] \<and>
          map (output_image load_ex) (actions res2) = map (output_image load_ex) (actions res))"
    by (elim exE conjE)
  have act': "actions res = [Copyfile ''/in/b.nii'' ''/out/b_ras.nii'',
                        Copyfile ''/in/d.nii'' ''/out/d_ras.nii'']"
    by (simp add: act names)
  have out: "t1w_list res = [''/out/b_ras.nii'', ''/out/d_ras.nii'']"
    by (simp add: out0 names)
  have "reads_back load_ex (actions res)"
    by (simp add: act' reads_back_def ld)
  with rerun obtain res2 where
    "conform_series load_ex canon_ex resample_ex presuffix_ex ''/out2'' (t1w_list res) = Inr res2"
    "actions res2 = map (\<lambda>n. Copyfile n (presuffix_ex n ''_ras'' ''/out2'')) (t1w_list res)"
    "resample_calls res2 = []"
    "map (output_image load_ex) (actions res2) = map (output_image load_ex) (actions res)"
    by (elim impE exE conjE)
  then have sec: "conform_series load_ex canon_ex resample_ex presuffix_ex ''/out2'' (t1w_list res) =
                Inr res2 \<and>
      actions res2 = [Copyfile ''/out/b_ras.nii'' ''/out2/b_ras_ras.nii'',
                      Copyfile ''/out/d_ras.nii'' ''/out2/d_ras_ras.nii''] \<and>
      resample_calls res2 = [] \<and>
      map (output_image load_ex) (actions res2) = [t1_b, t1_d]"
    by (simp add: out names imgs ld)
  show ?thesis
    by (rule exI [of _ res], intro conjI, rule run, rule act', rule calls, rule exI [of _ res2],
        rule sec)
qed

text \<open>
  As stated, for every series whose images share shape and spacing, the claim fails:
  the two images below have the same shape and the same spacing, and the first one,
  which is stored right-to-left, is written from its reoriented copy, whose data and
  affine differ from the input's.
\<close>

theorem shared_grid_not_noop:
  "conform_series load_ex canon_ex resample_ex presuffix_ex ''/out''
     [''/in/las.nii'', ''/in/ras.nii''] =
     Inr \<lparr>actions = [To_filename ras_img ''/out/las_ras.nii'',
                     Copyfile ''/in/ras.nii'' ''/out/ras_ras.nii''],
          t1w_list = [''/out/las_ras.nii'', ''/out/ras_ras.nii''], resample_calls = []\<rparr> \<and>
   img_shape (load_ex ''/in/las.nii'') = img_shape (load_ex ''/in/ras.nii'') \<and>
   zooms (header (load_ex ''/in/las.nii'')) = zooms (header (load_ex ''/in/ras.nii'')) \<and>
   output_image load_ex (To_filename ras_img ''/out/las_ras.nii'') \<noteq> load_ex ''/in/las.nii''"
proof -
  have refs: "reoriented_imgs load_ex canon_ex [''/in/las.nii'', ''/in/ras.nii''] =
      [Fresh ras_img, Orig ras_img]"
    by (simp add: reoriented_imgs_def las_facts reorient_ref_def)
  have c: "conform_image resample_ex [2, 1, 1] [2, 2, 2] (Fresh ras_img) = Inr (Fresh ras_img, [])"
    "conform_image resample_ex [2, 1, 1] [2, 2, 2] (Orig ras_img) = Inr (Orig ras_img, [])"
    using conform_image_noop [of "Fresh ras_img"] conform_image_noop [of "Orig ras_img"]
      ras_decisions by simp_all
  have run: "conform_series load_ex canon_ex resample_ex presuffix_ex ''/out''
     [''/in/las.nii'', ''/in/ras.nii''] =
     Inr \<lparr>actions = [To_filename ras_img ''/out/las_ras.nii'',
                     Copyfile ''/in/ras.nii'' ''/out/ras_ras.nii''],
          t1w_list = [''/out/las_ras.nii'', ''/out/ras_ras.nii''], resample_calls = []\<rparr>"
    by (simp add: conform_series_def Let_def refs ras_targets c write_output_def out_names_ex
        del: One_nat_def)
  have rest: "img_shape las_img = img_shape ras_img"
    "zooms (header las_img) = zooms (header ras_img)"
    by (simp_all add: las_img_def ras_img_def img_shape_def)
  from run rest las_facts show ?thesis by (simp add: output_image_def)
qed

section \<open>Images with an unexpected number of axes\<close>

lemma length_filter_eq_iff:
  "length (filter P xs) = length xs \<longleftrightarrow> (\<forall>x\<in>set xs. P x)"
proof (induction xs)
  case Nil
  then show ?case by simp
next
  case (Cons a xs)
  have le: "length (filter P xs) \<le> length xs" by simp
  show ?case
  proof (cases "P a")
    case True
    with Cons show ?thesis by simp
  next
    case False
    from le have "length (filter P xs) \<noteq> Suc (length xs)" by arith
    with False show ?thesis by simp
  qed
qed

lemma np_squeeze_idem: "np_squeeze (np_squeeze s) = np_squeeze s"
  by (simp add: np_squeeze_def)

lemma np_squeeze_same_length: "length (np_squeeze s) = length s \<longleftrightarrow> 1 \<notin> set s"
  by (auto simp: np_squeeze_def length_filter_eq_iff)

lemma intramodal_route_5d:
  assumes "length s = 5"
  shows "intramodal_route [s] =
     (if 1 \<in> set s then
        Inr (if length (np_squeeze s) < 4 then Return_single True else Mcflirt_single True)
      else Inl RuntimeError)"
  using assms np_squeeze_same_length [of s]
  by (auto simp: intramodal_route_def Let_def np_squeeze_idem)

lemma np_dot_diag_mismatch:
  assumes "0 < length v" "length v \<noteq> length B"
  shows "np_dot (np_diag v) B = Inl ValueError"
proof -
  have "np_diag v ! 0 \<in> set (np_diag v)" using assms(1) by (intro nth_mem) simp
  moreover have "length (np_diag v ! 0) = length v" using assms(1) by (simp add: np_diag_def)
  ultimately have "\<not> list_all (\<lambda>a. length a = length B) (np_diag v)"
    using assms(2) unfolding list_all_iff by (intro notI) force
  moreover have "np_diag v \<noteq> []" using assms(1) by (simp add: np_diag_def)
  ultimately show ?thesis by (simp add: np_dot_def)
qed

lemma wf_affine_parts:
  "wf_affine A \<Longrightarrow> length (linear_part A) = 3 \<and> length (translation A) = 3"
  by (simp add: wf_affine_def linear_part_def translation_def)

lemma rescale_few_axes:
  assumes "wf_affine A" "0 < length z" "length z < 3" "length tz = length z"
  shows "target_linear True tz z A = Inl ValueError"
proof -
  have sf: "broadcast2 (\<lambda>t z. t / z) tz z = Inr (map2 (\<lambda>t z. t / z) tz z)"
    using assms(4) by (simp add: broadcast2_same_length)
  have "np_dot (np_diag (map2 (\<lambda>t z. t / z) tz z)) (linear_part A) = Inl ValueError"
    using assms wf_affine_parts [OF assms(1)] by (intro np_dot_diag_mismatch) simp_all
  then show ?thesis by (simp add: target_linear_def sf)
qed

lemma resize_two_axes:
  assumes "wf_affine A" "length s = 2" "length ts = 2"
  shows "target_translation True ts s A = Inl ValueError"
proof -
  have sf: "broadcast2 (\<lambda>t s. (real t + real s) / (2 * real s)) ts s =
      Inr (map2 (\<lambda>t s. (real t + real s) / (2 * real s)) ts s)"
    using assms by (simp add: broadcast2_same_length)
  have "broadcast2 (\<lambda>x f. x * f) (translation A)
          (map2 (\<lambda>t s. (real t + real s) / (2 * real s)) ts s) = Inl ValueError"
    using assms wf_affine_parts [OF assms(1)] by (simp add: broadcast2_def)
  then show ?thesis by (simp add: target_translation_def sf)
qed

text \<open>
  C9. The unifier has no check of the number of axes. For an image with one or two
  axes (with a 4x4 affine, as many spacings as axes, and targets of the same
  length): when it needs neither rescale nor resize it is passed through unchanged;
  when it needs a rescale the loop fails with numpy's \<^verbatim>\<open>ValueError\<close>, as it
  does for two axes when only a resize is needed. The error for unexpected
  dimensions is raised by \<^verbatim>\<open>IntraModalMerge\<close>: with a single input whose data
  has five axes, \<^verbatim>\<open>RuntimeError\<close> is raised exactly when no axis has length 1,
  so that squeezing leaves five axes; otherwise the squeezed data is used. With
  several inputs there is no check.
\<close>

theorem few_axes_and_five_axes:
  assumes wf: "wf_affine (affine img)"
    and r: "deref r = img"
    and n: "0 < length (img_shape img)" "length (img_shape img) < 3"
    and lz: "length (zooms (header img)) = length (img_shape img)"
    and lts: "length ts = length (img_shape img)"
    and ltz: "length tz = length (img_shape img)"
    and unit: "get_atol (xyz_unit (header img)) = Inr atol"
    and s5: "length s = 5"
  shows "(\<exists>rescale resize.
            rescale_decision img tz = Inr rescale \<and> resize_decision img ts = Inr resize \<and>
            (\<not> rescale \<and> \<not> resize \<longrightarrow> conform_image resample ts tz r = Inr (r, [])) \<and>
            (rescale \<longrightarrow> conform_image resample ts tz r = Inl ValueError) \<and>
            (\<not> rescale \<and> resize \<and> length (img_shape img) = 2 \<longrightarrow>
               conform_image resample ts tz r = Inl ValueError)) \<and>
         intramodal_route [s] =
           (if 1 \<in> set s then
              Inr (if length (np_squeeze s) < 4 then Return_single True else Mcflirt_single True)
            else Inl RuntimeError) \<and>
         (length shapes \<noteq> 1 \<longrightarrow> intramodal_route shapes = Inr Merge_then_mcflirt)"
proof -
  let ?z = "take 3 (zooms (header img))"
  have z: "?z = zooms (header img)" using n lz by simp
  have lz': "length ?z = length tz" using lz ltz z by simp
  obtain rescale where rs: "rescale_decision img tz = Inr rescale"
    using unit lz' by (simp add: rescale_decision_def np_allclose_same_length)
  obtain resize where rz: "resize_decision img ts = Inr resize"
    using resize_decision_same [of img ts] lts by simp
  have a: "conform_image resample ts tz r = Inr (r, [])" if "\<not> rescale \<and> \<not> resize"
    using that conform_image_noop [of r tz ts resample] rs rz r by simp
  have b: "conform_image resample ts tz r = Inl ValueError" if rescale
  proof -
    have "target_linear True tz ?z (affine img) = Inl ValueError"
      using rescale_few_axes [OF wf, of ?z tz] n lz ltz z by simp
    then have "target_affine_of True resize ts tz img = Inl ValueError"
      by (simp add: target_affine_of_def)
    with that rs rz r show ?thesis by (simp add: conform_image_def Let_def)
  qed
  have c: "conform_image resample ts tz r = Inl ValueError"
    if "\<not> rescale \<and> resize \<and> length (img_shape img) = 2"
  proof -
    have "target_translation True ts (img_shape img) (affine img) = Inl ValueError"
      using resize_two_axes [OF wf, of "img_shape img" ts] that lts by simp
    then have "target_affine_of False True ts tz img = Inl ValueError"
      by (simp add: target_affine_of_def target_linear_def)
    with that rs rz r show ?thesis by (simp add: conform_image_def Let_def)
  qed
  have d: "length shapes \<noteq> 1 \<longrightarrow> intramodal_route shapes = Inr Merge_then_mcflirt"
    by (simp add: intramodal_route_def)
  from rs rz a b c have first: "\<exists>rescale resize.
            rescale_decision img tz = Inr rescale \<and> resize_decision img ts = Inr resize \<and>
            (\<not> rescale \<and> \<not> resize \<longrightarrow> conform_image resample ts tz r = Inr (r, [])) \<and>
            (rescale \<longrightarrow> conform_image resample ts tz r = Inl ValueError) \<and>
            (\<not> rescale \<and> resize \<and> length (img_shape img) = 2 \<longrightarrow>
               conform_image resample ts tz r = Inl ValueError)"
    by (intro exI [of _ rescale] exI [of _ resize]) simp
  show ?thesis
    by (intro conjI, rule first, rule intramodal_route_5d [OF s5], rule d)
qed

lemma flat_facts:
  "wf_affine (affine flat_img)" "deref (Orig flat_img) = flat_img"
  "0 < length (img_shape flat_img)" "length (img_shape flat_img) < 3"
  "length (zooms (header flat_img)) = length (img_shape flat_img)"
  "length [2, 2 :: nat] = length (img_shape flat_img)"
  "length [4, 2 :: nat] = length (img_shape flat_img)"
  "length [1, 1 :: real] = length (img_shape flat_img)"
  "length [1 / 2, 1 :: real] = length (img_shape flat_img)"
  "get_atol (xyz_unit (header flat_img)) = Inr (5 / 100)"
  by (simp_all add: flat_img_def wf_affine_def img_shape_def get_atol_values)

lemma flat_decisions:
  "rescale_decision flat_img [1, 1] = Inr False" "resize_decision flat_img [2, 2] = Inr False"
  "resize_decision flat_img [4, 2] = Inr True" "rescale_decision flat_img [1 / 2, 1] = Inr True"
  by (simp_all add: rescale_decision_def resize_decision_def flat_img_def get_atol_def
      atol_table_def np_allclose_def np_all_eq_def broadcast2_def isclose_def default_rtol_def
      img_shape_def)

text \<open>A flat image of shape (2, 2): unchanged against its own grid, an error when
  the target shape is (4, 2) or the target spacing (0.5, 1); and two 5-D shapes.\<close>

theorem few_axes_and_five_axes_witness:
  "conform_image resample_ex [2, 2] [1, 1] (Orig flat_img) = Inr (Orig flat_img, []) \<and>
   conform_image resample_ex [4, 2] [1, 1] (Orig flat_img) = Inl ValueError \<and>
   conform_image resample_ex [2, 2] [1 / 2, 1] (Orig flat_img) = Inl ValueError \<and>
   intramodal_route [[64, 64, 30, 2, 3]] = Inl RuntimeError \<and>
   intramodal_route [[64, 64, 30, 1, 2]] = Inr (Mcflirt_single True)"
proof -
  have s5: "length [64, 64, 30, 2, 3 :: nat] = 5" "length [64, 64, 30, 1, 2 :: nat] = 5"
    by simp_all
  note W = few_axes_and_five_axes [OF flat_facts(1,2,3,4,5)]
  from W [OF flat_facts(6) flat_facts(8) flat_facts(10) s5(1), of resample_ex] flat_decisions
  have 1: "conform_image resample_ex [2, 2] [1, 1] (Orig flat_img) = Inr (Orig flat_img, [])"
    and 4: "intramodal_route [[64, 64, 30, 2, 3]] = Inl RuntimeError"
    by auto
  from W [OF flat_facts(7) flat_facts(8) flat_facts(10) s5(2), of resample_ex] flat_decisions
  have 2: "conform_image resample_ex [4, 2] [1, 1] (Orig flat_img) = Inl ValueError"
    and 5: "intramodal_route [[64, 64, 30, 1, 2]] = Inr (Mcflirt_single True)"
    by (auto simp: flat_img_def img_shape_def np_squeeze_def)
  from W [OF flat_facts(6) flat_facts(9) flat_facts(10) s5(1), of resample_ex] flat_decisions
  have 3: "conform_image resample_ex [2, 2] [1 / 2, 1] (Orig flat_img) = Inl ValueError"
    by auto
  from 1 2 3 4 5 show ?thesis by simp
qed

text \<open>
  As stated, the claim fails: a series of one image with two axes runs without any
  error, and the image is copied.
\<close>

theorem flat_image_accepted:
  "length (img_shape (load_ex ''/in/flat.nii'')) = 2 \<and>
   conform_series load_ex canon_ex resample_ex presuffix_ex ''/out'' [''/in/flat.nii''] =
     Inr \<lparr>actions = [Copyfile ''/in/flat.nii'' ''/out/flat_ras.nii''],
          t1w_list = [''/out/flat_ras.nii''], resample_calls = []\<rparr>"
proof -
  have ld: "load_ex ''/in/flat.nii'' = flat_img" by (simp add: load_ex_def)
  have cn: "canon_ex flat_img = None" by (simp add: canon_ex_def flat_img_def las_img_def)
  have refs: "reoriented_imgs load_ex canon_ex [''/in/flat.nii''] = [Orig flat_img]"
    by (simp add: reoriented_imgs_def ld cn reorient_ref_def)
  have tg: "target_shape_of [flat_img] = Inr [2, 2]" "target_zooms_of [flat_img] = Inr [1, 1]"
    by (simp_all add: target_shape_of_def target_zooms_of_def np_max_axis0_def np_min_axis0_def
        reduce_axis0_def flat_img_def img_shape_def)
  have c: "conform_image resample_ex [2, 2] [1, 1] (Orig flat_img) = Inr (Orig flat_img, [])"
    using conform_image_noop [of "Orig flat_img"] flat_decisions by simp
  have "conform_series load_ex canon_ex resample_ex presuffix_ex ''/out'' [''/in/flat.nii''] =
     Inr \<lparr>actions = [Copyfile ''/in/flat.nii'' ''/out/flat_ras.nii''],
          t1w_list = [''/out/flat_ras.nii''], resample_calls = []\<rparr>"
    by (simp add: conform_series_def Let_def refs tg c write_output_def out_names_ex
        del: One_nat_def)
  moreover have "length (img_shape (load_ex ''/in/flat.nii'')) = 2"
    by (simp add: ld flat_img_def img_shape_def)
  ultimately show ?thesis by simp
qed

section \<open>The target grid of a series\<close>





section \<open>Orientation\<close>





end
